theory Spec2Isabelle
  imports Complex_Main "HOL-Library.Char_ord" "HOL-Library.List_Lexorder"
    "HOL-Library.Product_Lexorder"
begin

section \<open>Data model of worldbox_realworld.py\<close>

text \<open>
  Python floats are idealised as HOL reals, Python strings as HOL strings. \<open>str.lower\<close>
  follows the Unicode case tables, which are not part of the sources: it is the parameter
  \<open>lower\<close> of the reconciliation, about which nothing is assumed. Exceptions are values
  of type \<open>error\<close>, returned in the left summand.
\<close>

datatype error = TypeError | IndexError

text \<open>A cell of the value column as \<open>pd.read_csv\<close> delivers it: a number, or text that
  \<open>pd.to_numeric(errors="coerce")\<close> turns into NaN.\<close>

datatype cell = Num real | Txt string

text \<open>A row of the population frame: name column, year column, value column. The name and
  year cells are taken to be present; only the value cell can be missing or malformed.\<close>

record 'v row =
  pop_country :: string
  pop_year :: int
  population :: 'v

text \<open>The three shapely operations the script uses on a boundary geometry.\<close>

record geom =
  is_empty :: bool
  representative_point :: "real \<times> real"
  area :: real

text \<open>A row of the boundary frame \<open>world\<close>; \<open>geometry = None\<close> is Python's \<open>None\<close>.\<close>

record region =
  country :: string
  iso3 :: string
  geometry :: "geom option"

text \<open>An entry of the \<open>countries\<close> list written to the state file; \<open>None\<close> is JSON null.\<close>

record out_record =
  out_country :: string
  out_iso3 :: string
  population_raw :: "real option"
  population_millions :: "int option"

type_synonym polygon = "(real \<times> real) list"

text \<open>The two lists the second loop of \<open>main\<close> appends to: the polygons handed to the
  plot, and \<open>countries\<close>.\<close>

record build_state =
  plotted :: "polygon list"
  countries :: "out_record list"

section \<open>download\_population\_data (from the parsed frame on)\<close>

definition POP_YEAR :: int where
  "POP_YEAR = 2023"

text \<open>\<open>groupby(name_col).tail(1)\<close>: the last row of every group, in frame order.\<close>

fun tail1 :: "'v row list \<Rightarrow> 'v row list" where
  "tail1 [] = []"
| "tail1 (r # rs) =
     (if pop_country r \<in> set (map pop_country rs) then tail1 rs else r # tail1 rs)"

text \<open>Lines 47-50: the rows of the target year if there is one, else the last row of every
  name after a (stable) sort by name and year.\<close>

definition select_year :: "'v row list \<Rightarrow> 'v row list" where
  "select_year df =
     (if POP_YEAR \<in> set (map pop_year df) then filter (\<lambda>r. pop_year r = POP_YEAR) df
      else tail1 (sort_key (\<lambda>r. (pop_country r, pop_year r)) df))"

fun to_numeric :: "cell \<Rightarrow> real option" where
  "to_numeric (Num v) = Some v"
| "to_numeric (Txt s) = None"

definition coerce :: "cell row \<Rightarrow> real option row" where
  "coerce r =
     \<lparr>pop_country = pop_country r, pop_year = pop_year r,
      population = to_numeric (population r)\<rparr>"

fun dropna :: "real option row list \<Rightarrow> real row list" where
  "dropna [] = []"
| "dropna (r # rs) =
     (case population r of
        None \<Rightarrow> dropna rs
      | Some v \<Rightarrow>
          \<lparr>pop_country = pop_country r, pop_year = pop_year r, population = v\<rparr> # dropna rs)"

text \<open>Lines 47-53: year selection first, then coercion of the value column, then
  \<open>dropna\<close>.\<close>

definition download_population_data :: "cell row list \<Rightarrow> real row list" where
  "download_population_data df = dropna (map coerce (select_year df))"

text \<open>The loader in the order the specification words it: unparseable rows are discarded
  first, the year selection runs on what is left.\<close>

definition spec_download_population_data :: "cell row list \<Rightarrow> real row list" where
  "spec_download_population_data df = select_year (dropna (map coerce df))"

section \<open>Name reconciliation (first loop of main)\<close>

text \<open>\<open>Series.unique()\<close>: the distinct values in order of first appearance.\<close>

fun unique :: "'a list \<Rightarrow> 'a list" where
  "unique [] = []"
| "unique (x # xs) = x # unique (filter (\<lambda>y. y \<noteq> x) xs)"

definition pop_names_of :: "real row list \<Rightarrow> string list" where
  "pop_names_of pop_df = unique (map pop_country pop_df)"

text \<open>\<open>.iloc[0]\<close> raises IndexError on an empty selection.\<close>

fun iloc0 :: "'a list \<Rightarrow> error + 'a" where
  "iloc0 [] = Inl IndexError"
| "iloc0 (x # xs) = Inr x"

text \<open>Python's \<open>max(iterable, key=...)\<close> keeps the first of the maximal elements.\<close>

fun max_first :: "('a \<Rightarrow> nat) \<Rightarrow> 'a \<Rightarrow> 'a list \<Rightarrow> 'a" where
  "max_first key best [] = best"
| "max_first key best (x # xs) = max_first key (if key best < key x then x else best) xs"

text \<open>
  Modelled from the spec: \<open>fuzzywuzzy.process.extractOne\<close> is a third-party function and
  not part of the sources. It scores the query against every choice and returns the
  highest-scoring choice with its score (the first among equal top scores); with no
  choices it returns nothing. The similarity measure itself is the parameter \<open>score\<close>.
\<close>

definition extractOne ::
  "(string \<Rightarrow> string \<Rightarrow> nat) \<Rightarrow> string \<Rightarrow> string list \<Rightarrow> (string \<times> nat) option" where
  "extractOne score query choices =
     (case map (\<lambda>c. (c, score query c)) choices of
        [] \<Rightarrow> None
      | p # ps \<Rightarrow> Some (max_first snd p ps))"

text \<open>Lines 75-84, the body of the first loop for one canonical name: the value stored
  in \<open>pop_map[cname]\<close>, or the exception raised. Unpacking \<open>best, score = None\<close> is a
  TypeError.\<close>

definition match_population ::
  "(string \<Rightarrow> string) \<Rightarrow> (string \<Rightarrow> string \<Rightarrow> nat) \<Rightarrow> real row list \<Rightarrow> string list
    \<Rightarrow> string \<Rightarrow> error + real option" where
  "match_population lower score pop_df pop_names cname =
     (let match = filter (\<lambda>r. lower (pop_country r) = lower cname) pop_df in
      if match \<noteq> [] then
        (case iloc0 (map population match) of Inl e \<Rightarrow> Inl e | Inr v \<Rightarrow> Inr (Some v))
      else
        (case extractOne score cname pop_names of
           None \<Rightarrow> Inl TypeError
         | Some (best, sc) \<Rightarrow>
             if sc > 85 then
               (case iloc0 (map population (filter (\<lambda>r. pop_country r = best) pop_df)) of
                  Inl e \<Rightarrow> Inl e
                | Inr v \<Rightarrow> Inr (Some v))
             else Inr None))"

text \<open>Lines 73-84: the loop over the boundary rows, filling the dictionary \<open>pop_map\<close>.\<close>

fun reconcile ::
  "(string \<Rightarrow> string) \<Rightarrow> (string \<Rightarrow> string \<Rightarrow> nat) \<Rightarrow> real row list \<Rightarrow> string list
    \<Rightarrow> region list \<Rightarrow> (string \<rightharpoonup> real option) \<Rightarrow> error + (string \<rightharpoonup> real option)" where
  "reconcile lower score pop_df pop_names [] pop_map = Inr pop_map"
| "reconcile lower score pop_df pop_names (row # rows) pop_map =
     (case match_population lower score pop_df pop_names (country row) of
        Inl e \<Rightarrow> Inl e
      | Inr v \<Rightarrow> reconcile lower score pop_df pop_names rows (pop_map(country row \<mapsto> v)))"

section \<open>Polygon synthesis and the output records (second loop of main)\<close>

text \<open>Python's two-argument \<open>max(a, b)\<close> returns \<open>b\<close> only if \<open>b > a\<close>.\<close>

definition py_max :: "real \<Rightarrow> real \<Rightarrow> real" where
  "py_max a b = (if b > a then b else a)"

text \<open>Line 98. For a negative float \<open>area ** 0.5\<close> is a complex number, and comparing it
  with \<open>0.5\<close> inside \<open>max\<close> raises TypeError.\<close>

definition radius_of :: "real \<Rightarrow> error + real" where
  "radius_of a = (if a < 0 then Inl TypeError else Inr (py_max 0.5 (sqrt a * 0.6)))"

text \<open>Line 99.\<close>

definition sides_of :: "real \<Rightarrow> nat" where
  "sides_of radius =
     (if radius < 0.8 then 4 else (if radius < 2.0 then 6 else (if radius < 4.0 then 8 else 12)))"

text \<open>Lines 55-61.\<close>

definition make_regular_polygon :: "real \<Rightarrow> real \<Rightarrow> real \<Rightarrow> nat \<Rightarrow> real \<Rightarrow> polygon" where
  "make_regular_polygon cx cy radius sides rotation =
     map (\<lambda>i. (cx + radius * cos (rotation + 2 * pi * real i / real sides),
               cy + radius * sin (rotation + 2 * pi * real i / real sides)))
       [0..<sides]"

text \<open>Line 104: \<open>if pop_val\<close> is Python truthiness, false for \<open>None\<close> and for zero.\<close>

definition pop_millions_of :: "real option \<Rightarrow> int option" where
  "pop_millions_of pop_val =
     (case pop_val of
        None \<Rightarrow> None
      | Some v \<Rightarrow> if v \<noteq> 0 then Some \<lceil>v / 1000000\<rceil> else None)"

text \<open>\<open>pop_map.get(key, None)\<close>.\<close>

definition pop_map_get :: "(string \<rightharpoonup> real option) \<Rightarrow> string \<Rightarrow> real option" where
  "pop_map_get pop_map key = (case pop_map key of None \<Rightarrow> None | Some v \<Rightarrow> v)"

text \<open>Lines 95-100: the polygon drawn for a geometry.\<close>

definition synthesize :: "geom \<Rightarrow> error + polygon" where
  "synthesize g =
     (case representative_point g of
        (cx, cy) \<Rightarrow>
          (case radius_of (area g) of
             Inl e \<Rightarrow> Inl e
           | Inr radius \<Rightarrow> Inr (make_regular_polygon cx cy radius (sides_of radius) 0.5)))"

text \<open>Lines 103-110: the record appended for a boundary row.\<close>

definition make_record :: "(string \<rightharpoonup> real option) \<Rightarrow> region \<Rightarrow> out_record" where
  "make_record pop_map row =
     (let pop_val = pop_map_get pop_map (country row) in
      \<lparr>out_country = country row, out_iso3 = iso3 row,
       population_raw = pop_val, population_millions = pop_millions_of pop_val\<rparr>)"

text \<open>Lines 91-110: the loop over the boundary rows; \<open>continue\<close> leaves the state as it
  is.\<close>

fun build :: "(string \<rightharpoonup> real option) \<Rightarrow> region list \<Rightarrow> build_state \<Rightarrow> error + build_state" where
  "build pop_map [] st = Inr st"
| "build pop_map (row # rows) st =
     (case geometry row of
        None \<Rightarrow> build pop_map rows st
      | Some g \<Rightarrow>
          if is_empty g then build pop_map rows st
          else
            (case synthesize g of
               Inl e \<Rightarrow> Inl e
             | Inr poly \<Rightarrow>
                 build pop_map rows
                   \<lparr>plotted = plotted st @ [poly],
                    countries = countries st @ [make_record pop_map row]\<rparr>))"

text \<open>\<open>main\<close>, from the loaded frames on: \<open>lower\<close> is \<open>str.lower\<close>, \<open>score\<close> the
  similarity measure of the fuzzy library, \<open>world\<close> the boundary rows, \<open>df\<close> the parsed
  population CSV.\<close>

definition main ::
  "(string \<Rightarrow> string) \<Rightarrow> (string \<Rightarrow> string \<Rightarrow> nat) \<Rightarrow> region list \<Rightarrow> cell row list
    \<Rightarrow> error + build_state" where
  "main lower score world df =
     (let pop_df = download_population_data df;
          pop_names = pop_names_of pop_df in
      case reconcile lower score pop_df pop_names world Map.empty of
        Inl e \<Rightarrow> Inl e
      | Inr pop_map \<Rightarrow> build pop_map world \<lparr>plotted = [], countries = []\<rparr>)"

section \<open>Notions used in the statements\<close>

text \<open>The guard of line 93: the row is passed over by \<open>continue\<close>.\<close>

definition skipped :: "region \<Rightarrow> bool" where
  "skipped row = (case geometry row of None \<Rightarrow> True | Some g \<Rightarrow> is_empty g)"

text \<open>The rows that pass the guard of line 93, each with its geometry, in frame order.\<close>

definition kept :: "region list \<Rightarrow> (region \<times> geom) list" where
  "kept rows =
     concat (map (\<lambda>row. case geometry row of
                          None \<Rightarrow> []
                        | Some g \<Rightarrow> if is_empty g then [] else [(row, g)]) rows)"

section \<open>Concrete inputs\<close>

text \<open>Small boundary and population frames on which the statements below are evaluated.
  Every geometry in them has area 1 and the origin as its anchor, hence radius 0.6 and
  four sides.\<close>

text \<open>On ASCII strings, such as the names below, \<open>str.lower\<close> moves the letters A-Z up
  by 32 (it sets their bit 5) and leaves every other character as it is. This function
  stands for \<open>lower\<close> in the evaluations only.\<close>

definition ascii_lower_char :: "char \<Rightarrow> char" where
  "ascii_lower_char c =
     (if CHR ''A'' \<le> c \<and> c \<le> CHR ''Z'' then
        (case c of Char b0 b1 b2 b3 b4 b5 b6 b7 \<Rightarrow> Char b0 b1 b2 b3 b4 True b6 b7)
      else c)"

definition ascii_lower :: "string \<Rightarrow> string" where
  "ascii_lower s = map ascii_lower_char s"

definition unit_geom :: geom where
  "unit_geom = \<lparr>is_empty = False, representative_point = (0, 0), area = 1\<rparr>"

definition land :: "string \<Rightarrow> string \<Rightarrow> region" where
  "land name code = \<lparr>country = name, iso3 = code, geometry = Some unit_geom\<rparr>"

definition pop_entry :: "string \<Rightarrow> int \<Rightarrow> 'v \<Rightarrow> 'v row" where
  "pop_entry name yr v = \<lparr>pop_country = name, pop_year = yr, population = v\<rparr>"

definition out_entry :: "string \<Rightarrow> string \<Rightarrow> real option \<Rightarrow> int option \<Rightarrow> out_record" where
  "out_entry name code raw millions =
     \<lparr>out_country = name, out_iso3 = code, population_raw = raw,
      population_millions = millions\<rparr>"

definition scenario_world :: "region list" where
  "scenario_world =
     [land ''Aland'' ''ALA'', land ''Bland'' ''BLA'', land ''Cland'' ''CLA'',
      land ''Dland'' ''DLA'']"

definition scenario_df :: "cell row list" where
  "scenario_df =
     [pop_entry ''aland'' 2023 (Num 2500000), pop_entry ''BLAND'' 2023 (Num (- 1500000)),
      pop_entry ''Dland'' 2023 (Num 0)]"

definition scenario_state :: build_state where
  "scenario_state =
     \<lparr>plotted = replicate 4 (make_regular_polygon 0 0 0.6 4 0.5),
      countries =
        [out_entry ''Aland'' ''ALA'' (Some 2500000) (Some 3),
         out_entry ''Bland'' ''BLA'' (Some (- 1500000)) (Some (- 1)),
         out_entry ''Cland'' ''CLA'' None None,
         out_entry ''Dland'' ''DLA'' (Some 0) None]\<rparr>"

definition history_df :: "cell row list" where
  "history_df =
     [pop_entry ''Bland'' 2020 (Num 100), pop_entry ''Aland'' 2021 (Txt ''n/a''),
      pop_entry ''Aland'' 2020 (Num 7), pop_entry ''Bland'' 2019 (Num 8)]"

definition xyz_df :: "real row list" where
  "xyz_df = [pop_entry ''Other'' 2023 5, pop_entry ''Xyz Land'' 2023 900000]"

definition xyz_score :: "nat \<Rightarrow> string \<Rightarrow> string \<Rightarrow> nat" where
  "xyz_score n q c = (if c = ''Xyz Land'' then n else 10)"

definition twin_df :: "real row list" where
  "twin_df = [pop_entry ''Other'' 2023 5, pop_entry ''ALAND'' 2023 7, pop_entry ''aland'' 2023 9]"

text \<open>A name outside ASCII: the UTF-8 bytes of \<open>O\<close> with circumflex, upper and lower case,
  and a \<open>lower\<close> that folds the one to the other.\<close>

definition o_circ_upper :: string where
  "o_circ_upper = [CHR 0xC3, CHR 0x94]"

definition o_circ_lower :: string where
  "o_circ_lower = [CHR 0xC3, CHR 0xB4]"

definition accent_lower :: "string \<Rightarrow> string" where
  "accent_lower s = (if s = o_circ_upper then o_circ_lower else ascii_lower s)"

definition accent_df :: "real row list" where
  "accent_df = [pop_entry o_circ_lower 2023 1, pop_entry o_circ_upper 2023 2]"

definition mixed_world :: "region list" where
  "mixed_world =
     [land ''Aland'' ''ALA'',
      \<lparr>country = ''Gone'', iso3 = ''GON'', geometry = None\<rparr>,
      \<lparr>country = ''Void'', iso3 = ''VOI'', geometry = Some (unit_geom\<lparr>is_empty := True\<rparr>)\<rparr>,
      land ''Aland'' ''AL2'',
      land ''Bland'' ''BLA'']"

definition mixed_state :: build_state where
  "mixed_state =
     \<lparr>plotted = replicate 3 (make_regular_polygon 0 0 0.6 4 0.5),
      countries =
        [out_entry ''Aland'' ''ALA'' (Some 2500000) (Some 3),
         out_entry ''Aland'' ''AL2'' (Some 2500000) (Some 3),
         out_entry ''Bland'' ''BLA'' (Some (- 1500000)) (Some (- 1))]\<rparr>"

section \<open>Auxiliary facts\<close>

lemma set_unique: "set (unique xs) = set xs"
proof (induction xs rule: unique.induct)
  case 1
  show ?case by simp
next
  case (2 x xs)
  then show ?case by auto
qed

lemma distinct_unique: "distinct (unique xs)"
  by (induction xs rule: unique.induct) (auto simp: set_unique)

lemma max_first_mem: "max_first key b xs \<in> set (b # xs)"
  by (induction xs arbitrary: b) (auto split: if_splits)

lemma max_first_ge: "y \<in> set (b # xs) \<Longrightarrow> key y \<le> key (max_first key b xs)"
proof (induction xs arbitrary: b y)
  case Nil
  then show ?case by simp
next
  case (Cons x xs)
  let ?b = "if key b < key x then x else b"
  have top: "key ?b \<le> key (max_first key ?b xs)"
    by (rule Cons.IH) simp
  from Cons.prems consider "y = b" | "y = x" | "y \<in> set xs" by auto
  then show ?case
  proof cases
    case 1
    with top show ?thesis by (auto split: if_splits)
  next
    case 2
    with top show ?thesis by (auto split: if_splits)
  next
    case 3
    then have "key y \<le> key (max_first key ?b xs)" by (intro Cons.IH) simp
    then show ?thesis by simp
  qed
qed

lemma max_first_split:
  "\<exists>pre post. b # xs = pre @ max_first key b xs # post
      \<and> (\<forall>y\<in>set pre. key y < key (max_first key b xs))"
proof (induction xs arbitrary: b)
  case Nil
  have "[b] = [] @ max_first key b [] # [] \<and> (\<forall>y\<in>set []. key y < key (max_first key b []))"
    by simp
  then show ?case by blast
next
  case (Cons x xs)
  define b' where "b' = (if key b < key x then x else b)"
  define r where "r = max_first key b (x # xs)"
  have r: "max_first key b' xs = r" by (simp add: r_def b'_def)
  from Cons.IH [of b'] obtain pre post
    where sp: "b' # xs = pre @ r # post" and lt: "\<forall>y\<in>set pre. key y < key r"
    unfolding r by blast
  have ge: "key b' \<le> key r" unfolding r [symmetric] by (rule max_first_ge) simp
  have goal: "\<exists>pre post. b # x # xs = pre @ r # post \<and> (\<forall>y\<in>set pre. key y < key r)"
  proof (cases "key b < key x")
    case True
    then have b': "b' = x" by (simp add: b'_def)
    from sp have "b # x # xs = (b # pre) @ r # post" by (simp add: b')
    moreover from True ge lt have "\<forall>y\<in>set (b # pre). key y < key r" by (simp add: b')
    ultimately show ?thesis by blast
  next
    case False
    then have b': "b' = b" by (simp add: b'_def)
    show ?thesis
    proof (cases pre)
      case Nil
      from sp have "r = b" by (simp add: b' Nil)
      then have "b # x # xs = [] @ r # (x # xs) \<and> (\<forall>y\<in>set []. key y < key r)"
        by simp
      then show ?thesis by blast
    next
      case (Cons p pre')
      from sp have p: "p = b" and xs: "xs = pre' @ r # post" by (simp_all add: b' Cons)
      from lt have "key b < key r" by (simp add: Cons p)
      with False have "key x < key r" by simp
      with lt have "\<forall>y\<in>set (b # x # pre'). key y < key r" by (simp add: Cons p)
      moreover from xs have "b # x # xs = (b # x # pre') @ r # post" by simp
      ultimately show ?thesis by blast
    qed
  qed
  then show ?case unfolding r_def .
qed

lemma extractOne_Nil: "extractOne score q [] = None"
  by (simp add: extractOne_def)

lemma extractOne_Some:
  assumes "choices \<noteq> []"
  shows "\<exists>best pre post. extractOne score q choices = Some (best, score q best)
     \<and> choices = pre @ best # post
     \<and> (\<forall>c\<in>set pre. score q c < score q best)
     \<and> (\<forall>c\<in>set choices. score q c \<le> score q best)"
proof -
  from assms obtain c cs where ch: "choices = c # cs" by (cases choices) auto
  let ?f = "\<lambda>c. (c, score q c)"
  let ?r = "max_first snd (?f c) (map ?f cs)"
  have ex: "extractOne score q choices = Some ?r"
    by (simp add: extractOne_def ch)
  obtain pre post where sp: "?f c # map ?f cs = pre @ ?r # post"
    and lt: "\<forall>y\<in>set pre. snd y < snd ?r"
    using max_first_split [of "?f c" "map ?f cs" snd] by blast
  have mp: "map ?f choices = pre @ ?r # post" using sp ch by simp
  then have fsts: "choices = map fst pre @ fst ?r # map fst post"
  proof -
    have "map fst (map ?f choices) = map fst (pre @ ?r # post)" using mp by simp
    then show ?thesis by (simp add: comp_def)
  qed
  have "?r \<in> set (map ?f choices)" using mp by simp
  then have sc: "snd ?r = score q (fst ?r)" by auto
  have pre_f: "\<forall>y\<in>set pre. snd y = score q (fst y)"
  proof
    fix y assume "y \<in> set pre"
    then have "y \<in> set (map ?f choices)" using mp by simp
    then show "snd y = score q (fst y)" by auto
  qed
  have lt': "\<forall>c\<in>set (map fst pre). score q c < score q (fst ?r)"
    using lt pre_f sc by auto
  have ge: "\<forall>c'\<in>set choices. score q c' \<le> score q (fst ?r)"
  proof
    fix c' assume "c' \<in> set choices"
    then have "?f c' \<in> set (?f c # map ?f cs)" using ch by auto
    then have "snd (?f c') \<le> snd ?r" by (rule max_first_ge)
    then show "score q c' \<le> score q (fst ?r)" using sc by simp
  qed
  from ex sc have "extractOne score q choices = Some (fst ?r, score q (fst ?r))"
    by (metis prod.collapse)
  with fsts lt' ge show ?thesis by blast
qed


lemma match_population_exact:
  assumes "filter (\<lambda>r. lower (pop_country r) = lower cname) pop_df = r # rest"
  shows "match_population lower score pop_df pop_names cname = Inr (Some (population r))"
  using assms by (simp add: match_population_def)

lemma filter_name_nonempty:
  assumes "best \<in> set (map pop_country pop_df)"
  shows "\<exists>r rest. filter (\<lambda>r. pop_country r = best) pop_df = r # rest"
proof -
  from assms have "filter (\<lambda>r. pop_country r = best) pop_df \<noteq> []"
    by (auto simp: filter_empty_conv)
  then show ?thesis by (cases "filter (\<lambda>r. pop_country r = best) pop_df") auto
qed

lemma match_population_fuzzy:
  assumes none: "filter (\<lambda>r. lower (pop_country r) = lower cname) pop_df = []"
    and ne: "pop_df \<noteq> []"
  shows "\<exists>best pre post r rest.
      pop_names_of pop_df = pre @ best # post
    \<and> (\<forall>c\<in>set pre. score cname c < score cname best)
    \<and> (\<forall>c\<in>set (pop_names_of pop_df). score cname c \<le> score cname best)
    \<and> filter (\<lambda>r. pop_country r = best) pop_df = r # rest
    \<and> match_population lower score pop_df (pop_names_of pop_df) cname =
        (if 85 < score cname best then Inr (Some (population r)) else Inr None)"
proof -
  from ne have "pop_names_of pop_df \<noteq> []"
    by (cases pop_df) (simp_all add: pop_names_of_def)
  from extractOne_Some [OF this, of score cname] obtain best pre post
    where ex: "extractOne score cname (pop_names_of pop_df) = Some (best, score cname best)"
      and sp: "pop_names_of pop_df = pre @ best # post"
      and lt: "\<forall>c\<in>set pre. score cname c < score cname best"
      and ge: "\<forall>c\<in>set (pop_names_of pop_df). score cname c \<le> score cname best"
    by blast
  from sp have "best \<in> set (pop_names_of pop_df)" by simp
  then have "best \<in> set (map pop_country pop_df)"
    by (simp only: pop_names_of_def set_unique)
  from filter_name_nonempty [OF this] obtain r rest
    where f: "filter (\<lambda>r. pop_country r = best) pop_df = r # rest" by blast
  have "match_population lower score pop_df (pop_names_of pop_df) cname =
      (if 85 < score cname best then Inr (Some (population r)) else Inr None)"
    by (simp add: match_population_def none ex f)
  with sp lt ge f show ?thesis by blast
qed

lemma match_population_total:
  assumes "pop_df \<noteq> []"
  shows "\<exists>v. match_population lower score pop_df (pop_names_of pop_df) cname = Inr v"
proof (cases "filter (\<lambda>r. lower (pop_country r) = lower cname) pop_df")
  case Nil
  from match_population_fuzzy [OF Nil assms, of score] show ?thesis by (metis (full_types))
next
  case (Cons r rest)
  then show ?thesis by (simp add: match_population_exact)
qed

lemma reconcile_ok:
  assumes "\<forall>row\<in>set rows. \<exists>v. match_population lower score pop_df names (country row) = Inr v"
  shows "\<exists>pm'. reconcile lower score pop_df names rows pm = Inr pm'
    \<and> (\<forall>c. c \<notin> country ` set rows \<longrightarrow> pm' c = pm c)
    \<and> (\<forall>c\<in>country ` set rows. \<forall>v.
          match_population lower score pop_df names c = Inr v \<longrightarrow> pm' c = Some v)"
  using assms
proof (induction rows arbitrary: pm)
  case Nil
  show ?case by simp
next
  case (Cons row rows)
  then obtain v where v: "match_population lower score pop_df names (country row) = Inr v"
    by auto
  from Cons.prems have "\<forall>row\<in>set rows. \<exists>v. match_population lower score pop_df names (country row) = Inr v"
    by simp
  from Cons.IH [OF this, of "pm(country row \<mapsto> v)"] obtain pm'
    where r: "reconcile lower score pop_df names rows (pm(country row \<mapsto> v)) = Inr pm'"
      and out: "\<forall>c. c \<notin> country ` set rows \<longrightarrow> pm' c = (pm(country row \<mapsto> v)) c"
      and inn: "\<forall>c\<in>country ` set rows. \<forall>v.
          match_population lower score pop_df names c = Inr v \<longrightarrow> pm' c = Some v"
    by blast
  have 1: "reconcile lower score pop_df names (row # rows) pm = Inr pm'"
    by (simp add: v r)
  have 2: "\<forall>c. c \<notin> country ` set (row # rows) \<longrightarrow> pm' c = pm c"
    using out by auto
  have 3: "\<forall>c\<in>country ` set (row # rows). \<forall>w.
          match_population lower score pop_df names c = Inr w \<longrightarrow> pm' c = Some w"
  proof (intro ballI allI impI)
    fix c w
    assume c: "c \<in> country ` set (row # rows)"
      and w: "match_population lower score pop_df names c = Inr w"
    show "pm' c = Some w"
    proof (cases "c \<in> country ` set rows")
      case True
      with inn w show ?thesis by blast
    next
      case False
      with c have c': "c = country row" by auto
      with v w have "w = v" by simp
      with out False c' show ?thesis by simp
    qed
  qed
  from 1 2 3 show ?case by blast
qed

lemma synthesize_ok:
  assumes "0 \<le> area g"
  shows "\<exists>p. synthesize g = Inr p"
  using assms by (simp add: synthesize_def radius_of_def split: prod.splits)

lemma kept_Cons:
  "kept (row # rows) =
     (case geometry row of None \<Rightarrow> [] | Some g \<Rightarrow> if is_empty g then [] else [(row, g)])
       @ kept rows"
  by (simp add: kept_def)

lemma kept_Nil: "kept [] = []"
  by (simp add: kept_def)

lemma build_ok:
  assumes "\<forall>(row, g)\<in>set (kept rows). 0 \<le> area g"
  shows "\<exists>st'. build pop_map rows st = Inr st'
    \<and> countries st' = countries st @ map (\<lambda>(row, g). make_record pop_map row) (kept rows)
    \<and> map Inr (plotted st') = map Inr (plotted st) @ map (\<lambda>(row, g). synthesize g) (kept rows)"
  using assms
proof (induction rows arbitrary: st)
  case Nil
  show ?case by (simp add: kept_Nil)
next
  case (Cons row rows)
  from Cons.prems have rest: "\<forall>(row, g)\<in>set (kept rows). 0 \<le> area g"
    by (simp add: kept_Cons)
  show ?case
  proof (cases "geometry row")
    case None
    with Cons.IH [OF rest, of st] show ?thesis by (simp add: kept_Cons)
  next
    case (Some g)
    show ?thesis
    proof (cases "is_empty g")
      case True
      with Some Cons.IH [OF rest, of st] show ?thesis by (simp add: kept_Cons)
    next
      case False
      with Some Cons.prems have "0 \<le> area g" by (simp add: kept_Cons)
      from synthesize_ok [OF this] obtain p where p: "synthesize g = Inr p" by blast
      let ?st = "\<lparr>plotted = plotted st @ [p],
                    countries = countries st @ [make_record pop_map row]\<rparr>"
      from Cons.IH [OF rest, of ?st] obtain st'
        where "build pop_map rows ?st = Inr st'"
          and "countries st' = countries ?st @ map (\<lambda>(row, g). make_record pop_map row) (kept rows)"
          and "map Inr (plotted st') = map Inr (plotted ?st) @ map (\<lambda>(row, g). synthesize g) (kept rows)"
        by blast
      with Some False p show ?thesis by (simp add: kept_Cons)
    qed
  qed
qed

lemma build_records:
  assumes "build pop_map rows st = Inr st'"
  shows "set (countries st') \<subseteq> set (countries st) \<union> make_record pop_map ` set rows"
  using assms
proof (induction rows arbitrary: st)
  case Nil
  then show ?case by simp
next
  case (Cons row rows)
  show ?case
  proof (cases "geometry row")
    case None
    with Cons.prems have "build pop_map rows st = Inr st'" by simp
    from Cons.IH [OF this] show ?thesis by auto
  next
    case (Some g)
    show ?thesis
    proof (cases "is_empty g")
      case True
      with Some Cons.prems have "build pop_map rows st = Inr st'" by simp
      from Cons.IH [OF this] show ?thesis by auto
    next
      case False
      with Some Cons.prems obtain p where
        "build pop_map rows \<lparr>plotted = plotted st @ [p],
             countries = countries st @ [make_record pop_map row]\<rparr> = Inr st'"
        by (auto split: sum.splits)
      from Cons.IH [OF this] show ?thesis by auto
    qed
  qed
qed

lemmas eval_defs = main_def download_population_data_def select_year_def POP_YEAR_def coerce_def
  pop_names_of_def match_population_def extractOne_def ascii_lower_def ascii_lower_char_def synthesize_def
  radius_of_def py_max_def sides_of_def make_record_def pop_map_get_def pop_millions_of_def Let_def
  unit_geom_def land_def pop_entry_def out_entry_def

lemmas loader_defs = download_population_data_def spec_download_population_data_def
  select_year_def POP_YEAR_def coerce_def pop_entry_def

lemma make_record_fields:
  "out_country (make_record pop_map row) = country row"
  "out_iso3 (make_record pop_map row) = iso3 row"
  "population_raw (make_record pop_map row) = pop_map_get pop_map (country row)"
  "population_millions (make_record pop_map row)
     = pop_millions_of (pop_map_get pop_map (country row))"
  by (simp_all add: make_record_def Let_def)

lemma tail1_subset: "set (tail1 rs) \<subseteq> set rs"
  by (induction rs) auto

lemma tail1_names: "pop_country ` set (tail1 rs) = pop_country ` set rs"
  by (induction rs) auto

lemma tail1_distinct: "distinct (map pop_country (tail1 rs))"
proof (induction rs)
  case Nil
  show ?case by simp
next
  case (Cons r rs)
  have "pop_country r \<notin> pop_country ` set rs \<Longrightarrow> pop_country r \<notin> pop_country ` set (tail1 rs)"
    by (simp add: tail1_names)
  with Cons show ?case by auto
qed

lemma tail1_latest:
  assumes "sorted (map (\<lambda>r. (pop_country r, pop_year r)) rs)"
    and "r \<in> set (tail1 rs)" and "r' \<in> set rs" and "pop_country r' = pop_country r"
  shows "pop_year r' \<le> pop_year r"
  using assms
proof (induction rs)
  case Nil
  then show ?case by simp
next
  case (Cons x rs)
  from Cons.prems(1) have srt: "sorted (map (\<lambda>r. (pop_country r, pop_year r)) rs)"
    and hd: "\<forall>y\<in>set rs. (pop_country x, pop_year x) \<le> (pop_country y, pop_year y)"
    by auto
  show ?case
  proof (cases "pop_country x \<in> set (map pop_country rs)")
    case True
    with Cons.prems(2) have r: "r \<in> set (tail1 rs)" by simp
    show ?thesis
    proof (cases "r' = x")
      case True
      from r have "r \<in> set rs" using tail1_subset by blast
      with hd have "(pop_country x, pop_year x) \<le> (pop_country r, pop_year r)" by blast
      with True Cons.prems(4) show ?thesis by (simp add: less_eq_prod_def)
    next
      case False
      with Cons.prems(3) have "r' \<in> set rs" by simp
      from Cons.IH [OF srt r this Cons.prems(4)] show ?thesis .
    qed
  next
    case False
    with Cons.prems(2) consider "r = x" | "r \<in> set (tail1 rs)" by auto
    then show ?thesis
    proof cases
      case 1
      with False Cons.prems(3,4) have "r' = x" by (metis imageI set_ConsD set_map)
      with 1 show ?thesis by simp
    next
      case 2
      then have "r \<in> set rs" using tail1_subset by blast
      with False Cons.prems(3,4) have "r' \<in> set rs" by auto
      from Cons.IH [OF srt 2 this Cons.prems(4)] show ?thesis .
    qed
  qed
qed

lemma dropna_coerce:
  "dropna (map coerce rs) =
     concat (map (\<lambda>r. case population r of
                        Num v \<Rightarrow> [\<lparr>pop_country = pop_country r, pop_year = pop_year r, population = v\<rparr>]
                      | Txt s \<Rightarrow> []) rs)"
  by (induction rs) (auto simp: coerce_def split: cell.splits)

lemma reconcile_nonempty_table:
  assumes "pop_df \<noteq> []"
  shows "\<exists>pop_map. reconcile lower score pop_df (pop_names_of pop_df) world Map.empty = Inr pop_map
    \<and> dom pop_map = country ` set world
    \<and> (\<forall>c\<in>country ` set world. \<forall>v.
          match_population lower score pop_df (pop_names_of pop_df) c = Inr v \<longrightarrow> pop_map c = Some v)"
proof -
  have "\<forall>row\<in>set world. \<exists>v.
      match_population lower score pop_df (pop_names_of pop_df) (country row) = Inr v"
    using match_population_total [OF assms] by blast
  from reconcile_ok [OF this, of Map.empty] obtain pm
    where r: "reconcile lower score pop_df (pop_names_of pop_df) world Map.empty = Inr pm"
      and out: "\<forall>c. c \<notin> country ` set world \<longrightarrow> pm c = None"
      and inn: "\<forall>c\<in>country ` set world. \<forall>v.
          match_population lower score pop_df (pop_names_of pop_df) c = Inr v \<longrightarrow> pm c = Some v"
    by auto
  have "dom pm = country ` set world"
  proof (intro set_eqI iffI)
    fix c assume "c \<in> dom pm"
    with out show "c \<in> country ` set world" by (cases "c \<in> country ` set world") auto
  next
    fix c assume c: "c \<in> country ` set world"
    from match_population_total [OF assms, of lower score c] obtain v
      where "match_population lower score pop_df (pop_names_of pop_df) c = Inr v" by blast
    with inn c have "pm c = Some v" by blast
    then show "c \<in> dom pm" by blast
  qed
  with r inn show ?thesis by blast
qed

lemma reconcile_Inr:
  assumes "reconcile lower score pop_df names rows pm = Inr pm'"
  shows "(\<forall>c. c \<notin> country ` set rows \<longrightarrow> pm' c = pm c)
    \<and> (\<forall>c\<in>country ` set rows. \<exists>v.
          match_population lower score pop_df names c = Inr v \<and> pm' c = Some v)"
  using assms
proof (induction rows arbitrary: pm)
  case Nil
  then show ?case by simp
next
  case (Cons row rows)
  from Cons.prems obtain v
    where v: "match_population lower score pop_df names (country row) = Inr v"
      and r: "reconcile lower score pop_df names rows (pm(country row \<mapsto> v)) = Inr pm'"
    by (auto split: sum.splits)
  from Cons.IH [OF r]
  have out: "\<forall>c. c \<notin> country ` set rows \<longrightarrow> pm' c = (pm(country row \<mapsto> v)) c"
    and inn: "\<forall>c\<in>country ` set rows. \<exists>v.
          match_population lower score pop_df names c = Inr v \<and> pm' c = Some v"
    by blast+
  have 1: "\<forall>c. c \<notin> country ` set (row # rows) \<longrightarrow> pm' c = pm c"
    using out by auto
  have 2: "\<forall>c\<in>country ` set (row # rows). \<exists>v.
          match_population lower score pop_df names c = Inr v \<and> pm' c = Some v"
  proof
    fix c assume c: "c \<in> country ` set (row # rows)"
    show "\<exists>v. match_population lower score pop_df names c = Inr v \<and> pm' c = Some v"
    proof (cases "c \<in> country ` set rows")
      case True
      with inn show ?thesis by blast
    next
      case False
      with c have c': "c = country row" by auto
      with out False have "pm' c = Some v" by simp
      with v c' show ?thesis by blast
    qed
  qed
  from 1 2 show ?case by blast
qed

lemma build_Inr:
  assumes "build pop_map rows st = Inr st'"
  shows "countries st' = countries st @ map (\<lambda>(row, g). make_record pop_map row) (kept rows)
    \<and> plotted st' = plotted st @ map (\<lambda>(row, g). projr (synthesize g)) (kept rows)
    \<and> (\<forall>(row, g)\<in>set (kept rows). 0 \<le> area g)"
  using assms
proof (induction rows arbitrary: st)
  case Nil
  then show ?case by (simp add: kept_Nil)
next
  case (Cons row rows)
  show ?case
  proof (cases "geometry row")
    case None
    with Cons.prems have "build pop_map rows st = Inr st'" by simp
    from Cons.IH [OF this] None show ?thesis by (simp add: kept_Cons)
  next
    case (Some g)
    show ?thesis
    proof (cases "is_empty g")
      case True
      with Some Cons.prems have "build pop_map rows st = Inr st'" by simp
      from Cons.IH [OF this] Some True show ?thesis by (simp add: kept_Cons)
    next
      case False
      with Some Cons.prems obtain p where p: "synthesize g = Inr p"
        and b: "build pop_map rows \<lparr>plotted = plotted st @ [p],
             countries = countries st @ [make_record pop_map row]\<rparr> = Inr st'"
        by (auto split: sum.splits)
      from p have "0 \<le> area g"
        by (auto simp: synthesize_def radius_of_def split: prod.splits if_splits)
      with Cons.IH [OF b] Some False p show ?thesis by (simp add: kept_Cons)
    qed
  qed
qed

lemma kept_skipped: "map fst (kept rows) = filter (\<lambda>row. \<not> skipped row) rows"
  by (induction rows) (auto simp: kept_Cons kept_Nil skipped_def split: option.splits)

lemma kept_geometry: "(row, g) \<in> set (kept rows) \<Longrightarrow> row \<in> set rows \<and> geometry row = Some g \<and> \<not> is_empty g"
  by (induction rows) (auto simp: kept_Cons kept_Nil split: option.splits if_splits)

lemma kept_filter: "kept (filter (\<lambda>row. \<not> skipped row) rows) = kept rows"
  by (induction rows) (auto simp: kept_Cons kept_Nil skipped_def split: option.splits)

lemma kept_areas:
  assumes "\<forall>row\<in>set rows. \<forall>g. geometry row = Some g \<and> \<not> is_empty g \<longrightarrow> 0 \<le> area g"
  shows "\<forall>(row, g)\<in>set (kept rows). 0 \<le> area g"
  using assms kept_geometry by fastforce

lemma main_total:
  assumes ne: "download_population_data df \<noteq> []"
    and ar: "\<forall>row\<in>set world. \<forall>g. geometry row = Some g \<and> \<not> is_empty g \<longrightarrow> 0 \<le> area g"
  shows "\<exists>st. main lower score world df = Inr st"
proof -
  from reconcile_nonempty_table [OF ne, of lower score world] obtain pm
    where r: "reconcile lower score (download_population_data df)
        (pop_names_of (download_population_data df)) world Map.empty = Inr pm"
    by blast
  from build_ok [OF kept_areas [OF ar], of pm "\<lparr>plotted = [], countries = []\<rparr>"] obtain st
    where "build pm world \<lparr>plotted = [], countries = []\<rparr> = Inr st" by blast
  with r show ?thesis by (simp add: main_def Let_def)
qed

lemma main_Inr:
  assumes "main lower score world df = Inr st"
  shows "\<exists>pop_map.
      reconcile lower score (download_population_data df)
        (pop_names_of (download_population_data df)) world Map.empty = Inr pop_map
    \<and> countries st = map (\<lambda>(row, g). make_record pop_map row) (kept world)
    \<and> plotted st = map (\<lambda>(row, g). projr (synthesize g)) (kept world)
    \<and> (\<forall>(row, g)\<in>set (kept world). 0 \<le> area g)"
proof -
  from assms obtain pm
    where r: "reconcile lower score (download_population_data df)
        (pop_names_of (download_population_data df)) world Map.empty = Inr pm"
      and b: "build pm world \<lparr>plotted = [], countries = []\<rparr> = Inr st"
    by (auto simp: main_def Let_def split: sum.splits)
  from build_Inr [OF b] r show ?thesis by simp
qed

lemma main_records:
  assumes "main lower score world df = Inr st" and "rec \<in> set (countries st)"
  shows "population_millions rec = pop_millions_of (population_raw rec)"
proof -
  from assms(1) obtain pop_map
    where "build pop_map world \<lparr>plotted = [], countries = []\<rparr> = Inr st"
    by (auto simp: main_def Let_def split: sum.splits)
  from build_records [OF this] assms(2) obtain row where "rec = make_record pop_map row"
    by auto
  then show ?thesis by (simp add: make_record_def Let_def)
qed

lemma plotted_synthesize:
  assumes "\<forall>(row, g)\<in>set (kept rows). 0 \<le> area g"
  shows "map Inr (map (\<lambda>(row, g). projr (synthesize g)) (kept rows))
    = map (\<lambda>(row, g). synthesize g) (kept rows)"
proof -
  have "Inr (projr (synthesize g)) = synthesize g" if "(row, g) \<in> set (kept rows)" for row g
  proof -
    from assms that have "0 \<le> area g" by blast
    from synthesize_ok [OF this] show ?thesis by auto
  qed
  then show ?thesis by auto
qed

lemma scenario_run: "main ascii_lower (\<lambda>q c. 0) scenario_world scenario_df = Inr scenario_state"
  by (simp add: eval_defs scenario_world_def scenario_df_def scenario_state_def numeral_eq_Suc)

lemma mixed_run: "main ascii_lower (\<lambda>q c. 0) mixed_world scenario_df = Inr mixed_state"
  by (simp add: eval_defs mixed_world_def scenario_df_def mixed_state_def numeral_eq_Suc)

section \<open>The claims\<close>

text \<open>
  C1 (as amended). For every record of the output, \<open>population_millions\<close> is the ceiling
  of \<open>population_raw / 1,000,000\<close> whenever \<open>population_raw\<close> is a non-zero number: at
  least 1 when it is positive, and a non-positive integer (not null) when it is negative.
  It is null when the region is unmatched or \<open>population_raw\<close> is zero.
\<close>

theorem population_millions_ceiling:
  assumes "main lower score world df = Inr st" and "rec \<in> set (countries st)"
  shows "(\<forall>v. population_raw rec = Some v \<and> 0 < v \<longrightarrow>
            population_millions rec = Some \<lceil>v / 1000000\<rceil> \<and> 1 \<le> \<lceil>v / 1000000\<rceil>)
    \<and> (\<forall>v. population_raw rec = Some v \<and> v < 0 \<longrightarrow>
            population_millions rec = Some \<lceil>v / 1000000\<rceil> \<and> \<lceil>v / 1000000\<rceil> \<le> 0)
    \<and> (population_raw rec = None \<or> population_raw rec = Some 0 \<longrightarrow>
            population_millions rec = None)"
proof -
  have m: "population_millions rec = pop_millions_of (population_raw rec)"
    using assms by (rule main_records)
  have pos: "1 \<le> \<lceil>v / 1000000\<rceil>" if "0 < v" for v :: real
  proof -
    from that have "0 < v / 1000000" by simp
    then have "0 < \<lceil>v / 1000000\<rceil>" by (simp only: zero_less_ceiling)
    then show ?thesis by simp
  qed
  have neg: "\<lceil>v / 1000000\<rceil> \<le> 0" if "v < 0" for v :: real
  proof -
    from that have "v / 1000000 \<le> 0" by simp
    then show ?thesis by (simp only: ceiling_le_zero)
  qed
  show ?thesis using pos neg by (auto simp: m pop_millions_of_def)
qed

theorem population_millions_ceiling_witness:
  "main ascii_lower (\<lambda>q c. 0) scenario_world scenario_df = Inr scenario_state
   \<and> map population_raw (countries scenario_state)
        = [Some 2500000, Some (- 1500000), None, Some 0]
   \<and> map population_millions (countries scenario_state)
        = [Some \<lceil>2500000 / (1000000::real)\<rceil>, Some \<lceil>- 1500000 / (1000000::real)\<rceil>, None, None]
   \<and> \<lceil>2500000 / (1000000::real)\<rceil> = 3 \<and> \<lceil>- 1500000 / (1000000::real)\<rceil> = - 1"
proof -
  note run = scenario_run
  have mem: "out_entry ''Aland'' ''ALA'' (Some 2500000) (Some 3) \<in> set (countries scenario_state)"
    "out_entry ''Bland'' ''BLA'' (Some (- 1500000)) (Some (- 1)) \<in> set (countries scenario_state)"
    "out_entry ''Cland'' ''CLA'' None None \<in> set (countries scenario_state)"
    "out_entry ''Dland'' ''DLA'' (Some 0) None \<in> set (countries scenario_state)"
    by (simp_all add: scenario_state_def)
  show ?thesis
    using run population_millions_ceiling [OF run mem(1)] population_millions_ceiling [OF run mem(2)]
      population_millions_ceiling [OF run mem(3)] population_millions_ceiling [OF run mem(4)]
    by (simp add: scenario_state_def out_entry_def)
qed

text \<open>
  A negative raw population does not give null millions: \<open>if pop_val\<close> on line 104 is
  true for it, and \<open>- 1,500,000\<close> comes out as \<open>- 1\<close>.
\<close>

theorem negative_population_counterexample:
  "main ascii_lower (\<lambda>q c. 0) [land ''Bland'' ''BLA''] [pop_entry ''BLAND'' 2023 (Num (- 1500000))]
     = Inr \<lparr>plotted = [make_regular_polygon 0 0 0.6 4 0.5],
            countries = [out_entry ''Bland'' ''BLA'' (Some (- 1500000)) (Some (- 1))]\<rparr>
   \<and> population_millions (out_entry ''Bland'' ''BLA'' (Some (- 1500000)) (Some (- 1))) \<noteq> None"
  by (simp add: eval_defs)

text \<open>
  C2 (as amended). In the population loader the year selection runs first, on all rows: if
  any row carries the target year exactly the rows of that year are selected, otherwise
  one row per distinct name, a row with the latest year among that name's rows. Only
  afterwards are the selected rows whose population value is not numeric discarded, the
  others keeping their order, name, year and value.
\<close>

theorem download_selects_then_drops:
  "download_population_data df =
     concat (map (\<lambda>r. case population r of
                        Num v \<Rightarrow> [\<lparr>pop_country = pop_country r, pop_year = pop_year r, population = v\<rparr>]
                      | Txt s \<Rightarrow> []) (select_year df))
   \<and> (POP_YEAR \<in> pop_year ` set df \<longrightarrow>
        select_year df = filter (\<lambda>r. pop_year r = POP_YEAR) df)
   \<and> (POP_YEAR \<notin> pop_year ` set df \<longrightarrow>
        set (select_year df) \<subseteq> set df
      \<and> distinct (map pop_country (select_year df))
      \<and> pop_country ` set (select_year df) = pop_country ` set df
      \<and> (\<forall>r\<in>set (select_year df). \<forall>r'\<in>set df.
            pop_country r' = pop_country r \<longrightarrow> pop_year r' \<le> pop_year r))"
proof (intro conjI impI)
  show "download_population_data df =
     concat (map (\<lambda>r. case population r of
                        Num v \<Rightarrow> [\<lparr>pop_country = pop_country r, pop_year = pop_year r, population = v\<rparr>]
                      | Txt s \<Rightarrow> []) (select_year df))"
    by (simp only: download_population_data_def dropna_coerce)
next
  assume "POP_YEAR \<in> pop_year ` set df"
  then show "select_year df = filter (\<lambda>r. pop_year r = POP_YEAR) df"
    by (simp add: select_year_def)
next
  assume no: "POP_YEAR \<notin> pop_year ` set df"
  let ?key = "\<lambda>r::cell row. (pop_country r, pop_year r)"
  have sel: "select_year df = tail1 (sort_key ?key df)"
    using no by (simp add: select_year_def)
  show "set (select_year df) \<subseteq> set df"
    unfolding sel using tail1_subset [of "sort_key ?key df"] by simp
  show "distinct (map pop_country (select_year df))"
    unfolding sel by (rule tail1_distinct)
  show "pop_country ` set (select_year df) = pop_country ` set df"
    unfolding sel by (simp add: tail1_names)
  show "\<forall>r\<in>set (select_year df). \<forall>r'\<in>set df.
            pop_country r' = pop_country r \<longrightarrow> pop_year r' \<le> pop_year r"
  proof (intro ballI impI)
    fix r r'
    assume r: "r \<in> set (select_year df)" and r': "r' \<in> set df"
      and eq: "pop_country r' = pop_country r"
    have "sorted (map ?key (sort_key ?key df))" by (rule sorted_sort_key)
    moreover from r have "r \<in> set (tail1 (sort_key ?key df))" by (simp only: sel)
    moreover from r' have "r' \<in> set (sort_key ?key df)" by simp
    ultimately show "pop_year r' \<le> pop_year r" using eq by (rule tail1_latest)
  qed
qed

theorem download_selects_then_drops_witness:
  "POP_YEAR \<in> pop_year ` set scenario_df
   \<and> select_year scenario_df = scenario_df
   \<and> POP_YEAR \<notin> pop_year ` set history_df
   \<and> select_year history_df = [pop_entry ''Aland'' 2021 (Txt ''n/a''), pop_entry ''Bland'' 2020 (Num 100)]
   \<and> download_population_data history_df = [pop_entry ''Bland'' 2020 100]"
proof -
  have 1: "POP_YEAR \<in> pop_year ` set scenario_df"
    by (simp add: scenario_df_def POP_YEAR_def pop_entry_def)
  have 2: "POP_YEAR \<notin> pop_year ` set history_df"
    by (simp add: history_df_def POP_YEAR_def pop_entry_def)
  have 3: "filter (\<lambda>r. pop_year r = POP_YEAR) scenario_df = scenario_df"
    by (simp add: scenario_df_def POP_YEAR_def pop_entry_def)
  have 4: "select_year history_df = [pop_entry ''Aland'' 2021 (Txt ''n/a''), pop_entry ''Bland'' 2020 (Num 100)]"
    by (simp add: history_df_def loader_defs)
  show ?thesis
    using download_selects_then_drops [of scenario_df] download_selects_then_drops [of history_df]
      1 2 3 4
    by (simp add: pop_entry_def)
qed

text \<open>
  Discarding the unparseable rows before the year selection gives another frame: a name
  whose latest row is unparseable is lost by the loader but kept, with its earlier row,
  by the other order; and an unparseable row of the target year still switches the
  loader to the target-year branch.
\<close>

theorem discard_before_selection_counterexample:
  "download_population_data
      [pop_entry ''Aland'' 2020 (Num 100), pop_entry ''Aland'' 2021 (Txt ''n/a'')] = []
   \<and> spec_download_population_data
      [pop_entry ''Aland'' 2020 (Num 100), pop_entry ''Aland'' 2021 (Txt ''n/a'')]
      = [pop_entry ''Aland'' 2020 100]
   \<and> download_population_data
      [pop_entry ''Aland'' 2023 (Txt ''n/a''), pop_entry ''Aland'' 2022 (Num 100)] = []
   \<and> spec_download_population_data
      [pop_entry ''Aland'' 2023 (Txt ''n/a''), pop_entry ''Aland'' 2022 (Num 100)]
      = [pop_entry ''Aland'' 2022 100]"
  by (simp add: loader_defs)

text \<open>
  C3. Let the population frame be non-empty and let a canonical region name have no
  case-insensitive exact match in it. The first loop stores a result for the name: with
  \<open>best\<close> the first of the distinct source names that reaches the highest similarity
  score, the result is the population of the first row named \<open>best\<close> if that score
  exceeds 85, and null if it is at most 85.
\<close>

theorem fuzzy_threshold:
  assumes ne: "pop_df \<noteq> []"
    and cn: "cname \<in> country ` set world"
    and none: "\<forall>r\<in>set pop_df. lower (pop_country r) \<noteq> lower cname"
  shows "\<exists>pop_map best pre post r rest.
       reconcile lower score pop_df (pop_names_of pop_df) world Map.empty = Inr pop_map
     \<and> pop_names_of pop_df = pre @ best # post
     \<and> (\<forall>c\<in>set pre. score cname c < score cname best)
     \<and> score cname best = Max (score cname ` pop_country ` set pop_df)
     \<and> filter (\<lambda>r. pop_country r = best) pop_df = r # rest
     \<and> (85 < score cname best \<longrightarrow> pop_map cname = Some (Some (population r)))
     \<and> (score cname best \<le> 85 \<longrightarrow> pop_map cname = Some None)"
proof -
  from none have nomatch: "filter (\<lambda>r. lower (pop_country r) = lower cname) pop_df = []"
    by (simp add: filter_empty_conv)
  from match_population_fuzzy [OF nomatch ne, of score] obtain best pre post r rest
    where sp: "pop_names_of pop_df = pre @ best # post"
      and lt: "\<forall>c\<in>set pre. score cname c < score cname best"
      and ge: "\<forall>c\<in>set (pop_names_of pop_df). score cname c \<le> score cname best"
      and f: "filter (\<lambda>r. pop_country r = best) pop_df = r # rest"
      and m: "match_population lower score pop_df (pop_names_of pop_df) cname =
        (if 85 < score cname best then Inr (Some (population r)) else Inr None)"
    by blast
  have names: "set (pop_names_of pop_df) = pop_country ` set pop_df"
    by (simp add: pop_names_of_def set_unique)
  have "Max (score cname ` pop_country ` set pop_df) = score cname best"
  proof (rule Max_eqI)
    show "finite (score cname ` pop_country ` set pop_df)" by simp
  next
    fix y assume "y \<in> score cname ` pop_country ` set pop_df"
    with ge names show "y \<le> score cname best" by auto
  next
    from sp have "best \<in> set (pop_names_of pop_df)" by simp
    with names show "score cname best \<in> score cname ` pop_country ` set pop_df" by blast
  qed
  then have mx: "score cname best = Max (score cname ` pop_country ` set pop_df)" by simp
  from reconcile_nonempty_table [OF ne, of lower score world] obtain pm
    where r: "reconcile lower score pop_df (pop_names_of pop_df) world Map.empty = Inr pm"
      and inn: "\<forall>c\<in>country ` set world. \<forall>v.
          match_population lower score pop_df (pop_names_of pop_df) c = Inr v \<longrightarrow> pm c = Some v"
    by blast
  from inn cn have link: "match_population lower score pop_df (pop_names_of pop_df) cname = Inr v
      \<Longrightarrow> pm cname = Some v" for v
    by blast
  have hi: "85 < score cname best \<longrightarrow> pm cname = Some (Some (population r))"
  proof
    assume "85 < score cname best"
    with m have "match_population lower score pop_df (pop_names_of pop_df) cname
        = Inr (Some (population r))" by simp
    then show "pm cname = Some (Some (population r))" by (rule link)
  qed
  have lo: "score cname best \<le> 85 \<longrightarrow> pm cname = Some None"
  proof
    assume "score cname best \<le> 85"
    with m have "match_population lower score pop_df (pop_names_of pop_df) cname = Inr None"
      by simp
    then show "pm cname = Some None" by (rule link)
  qed
  from r sp lt mx f hi lo show ?thesis by blast
qed

theorem fuzzy_threshold_witness:
  "(\<exists>pop_map. reconcile ascii_lower (xyz_score 90) xyz_df (pop_names_of xyz_df) [land ''Xyzland'' ''XYZ''] Map.empty
        = Inr pop_map \<and> pop_map ''Xyzland'' = Some (Some 900000))
 \<and> (\<exists>pop_map. reconcile ascii_lower (xyz_score 85) xyz_df (pop_names_of xyz_df) [land ''Xyzland'' ''XYZ''] Map.empty
        = Inr pop_map \<and> pop_map ''Xyzland'' = Some None)"
proof -
  have ne: "xyz_df \<noteq> []" by (simp add: xyz_df_def)
  have cn: "''Xyzland'' \<in> country ` set [land ''Xyzland'' ''XYZ'']" by (simp add: land_def)
  have none: "\<forall>r\<in>set xyz_df. ascii_lower (pop_country r) \<noteq> ascii_lower ''Xyzland''"
    by (simp add: xyz_df_def pop_entry_def ascii_lower_def ascii_lower_char_def)
  have names: "pop_names_of xyz_df = [''Other'', ''Xyz Land'']"
    by (simp add: xyz_df_def pop_entry_def pop_names_of_def)
  have top: "Max (xyz_score n ''Xyzland'' ` pop_country ` set xyz_df) = max 10 n" for n
    by (simp add: xyz_df_def pop_entry_def xyz_score_def max.commute)
  have best: "best = ''Xyz Land''"
    if "pop_names_of xyz_df = pre @ best # post"
      and "xyz_score n ''Xyzland'' best = Max (xyz_score n ''Xyzland'' ` pop_country ` set xyz_df)"
      and "10 < n" for best pre post n
  proof -
    from that(1) have "best \<in> set (pop_names_of xyz_df)" by simp
    then have "best = ''Other'' \<or> best = ''Xyz Land''" by (simp add: names)
    moreover have "xyz_score n ''Xyzland'' ''Other'' = 10" by (simp add: xyz_score_def)
    ultimately show ?thesis using that(2,3) by (auto simp: top)
  qed
  have row: "r = pop_entry ''Xyz Land'' 2023 900000"
    if "filter (\<lambda>r. pop_country r = ''Xyz Land'') xyz_df = r # rest" for r rest
    using that by (simp add: xyz_df_def pop_entry_def)
  have sc: "xyz_score n ''Xyzland'' ''Xyz Land'' = n" for n by (simp add: xyz_score_def)
  from fuzzy_threshold [OF ne cn none, of "xyz_score 90"] obtain pm best pre post r rest
    where "reconcile ascii_lower (xyz_score 90) xyz_df (pop_names_of xyz_df) [land ''Xyzland'' ''XYZ''] Map.empty = Inr pm"
      and "pop_names_of xyz_df = pre @ best # post"
      and "xyz_score 90 ''Xyzland'' best = Max (xyz_score 90 ''Xyzland'' ` pop_country ` set xyz_df)"
      and "filter (\<lambda>r. pop_country r = best) xyz_df = r # rest"
      and "85 < xyz_score 90 ''Xyzland'' best \<longrightarrow> pm ''Xyzland'' = Some (Some (population r))"
    by blast
  moreover from this have "best = ''Xyz Land''" by (intro best [of pre best post 90]) simp_all
  ultimately have hi: "\<exists>pop_map. reconcile ascii_lower (xyz_score 90) xyz_df (pop_names_of xyz_df) [land ''Xyzland'' ''XYZ''] Map.empty
        = Inr pop_map \<and> pop_map ''Xyzland'' = Some (Some 900000)"
    using row [of r rest] by (simp add: sc pop_entry_def)
  from fuzzy_threshold [OF ne cn none, of "xyz_score 85"] obtain pm best pre post r rest
    where "reconcile ascii_lower (xyz_score 85) xyz_df (pop_names_of xyz_df) [land ''Xyzland'' ''XYZ''] Map.empty = Inr pm"
      and "pop_names_of xyz_df = pre @ best # post"
      and "xyz_score 85 ''Xyzland'' best = Max (xyz_score 85 ''Xyzland'' ` pop_country ` set xyz_df)"
      and "xyz_score 85 ''Xyzland'' best \<le> 85 \<longrightarrow> pm ''Xyzland'' = Some None"
    by blast
  moreover from this have "best = ''Xyz Land''" by (intro best [of pre best post 85]) simp_all
  ultimately have lo: "\<exists>pop_map. reconcile ascii_lower (xyz_score 85) xyz_df (pop_names_of xyz_df) [land ''Xyzland'' ''XYZ''] Map.empty
        = Inr pop_map \<and> pop_map ''Xyzland'' = Some None"
    by (simp add: sc)
  from hi lo show ?thesis by blast
qed

text \<open>
  C4. For a canonical region name with a case-insensitive exact match, that is, a row
  whose name equals it after \<open>str.lower\<close> (whatever the case tables of \<open>lower\<close> are), the
  first loop stores the population of the first matching row, and that result is the
  same whatever the similarity measure and the candidate names are: the fuzzy fallback
  is not consulted.
\<close>

theorem exact_match_first:
  assumes cn: "cname \<in> country ` set world"
    and f: "filter (\<lambda>r. lower (pop_country r) = lower cname) pop_df = r # rest"
  shows "(\<exists>pop_map. reconcile lower score pop_df (pop_names_of pop_df) world Map.empty = Inr pop_map
            \<and> pop_map cname = Some (Some (population r)))
    \<and> (\<forall>score' names'. match_population lower score' pop_df names' cname = Inr (Some (population r)))"
proof
  from f have ne: "pop_df \<noteq> []" by auto
  from reconcile_nonempty_table [OF ne, of lower score world] obtain pm
    where r: "reconcile lower score pop_df (pop_names_of pop_df) world Map.empty = Inr pm"
      and inn: "\<forall>c\<in>country ` set world. \<forall>v.
          match_population lower score pop_df (pop_names_of pop_df) c = Inr v \<longrightarrow> pm c = Some v"
    by blast
  from inn cn match_population_exact [OF f, of score "pop_names_of pop_df"]
  have "pm cname = Some (Some (population r))" by blast
  with r show "\<exists>pop_map. reconcile lower score pop_df (pop_names_of pop_df) world Map.empty = Inr pop_map
            \<and> pop_map cname = Some (Some (population r))" by blast
next
  show "\<forall>score' names'. match_population lower score' pop_df names' cname = Inr (Some (population r))"
    using match_population_exact [OF f] by blast
qed

theorem exact_match_first_witness:
  "filter (\<lambda>r. ascii_lower (pop_country r) = ascii_lower ''Aland'') twin_df
     = [pop_entry ''ALAND'' 2023 7, pop_entry ''aland'' 2023 9]
   \<and> (\<exists>pop_map.
        reconcile ascii_lower (\<lambda>q c. 100) twin_df (pop_names_of twin_df) [land ''Aland'' ''ALA'']
          Map.empty = Inr pop_map \<and> pop_map ''Aland'' = Some (Some 7))
   \<and> match_population ascii_lower (\<lambda>q c. 0) twin_df [] ''Aland'' = Inr (Some 7)
   \<and> filter (\<lambda>r. accent_lower (pop_country r) = accent_lower o_circ_upper) accent_df
     = accent_df
   \<and> match_population accent_lower (\<lambda>q c. 0) accent_df [] o_circ_upper = Inr (Some 1)"
proof -
  have cn: "''Aland'' \<in> country ` set [land ''Aland'' ''ALA'']" by (simp add: land_def)
  have f: "filter (\<lambda>r. ascii_lower (pop_country r) = ascii_lower ''Aland'') twin_df
     = pop_entry ''ALAND'' 2023 7 # [pop_entry ''aland'' 2023 9]"
    by (simp add: twin_df_def pop_entry_def ascii_lower_def ascii_lower_char_def)
  have cn': "o_circ_upper \<in> country ` set [land o_circ_upper ''OCI'']" by (simp add: land_def)
  have f': "filter (\<lambda>r. accent_lower (pop_country r) = accent_lower o_circ_upper) accent_df
     = pop_entry o_circ_lower 2023 1 # [pop_entry o_circ_upper 2023 2]"
    by (simp add: accent_df_def pop_entry_def accent_lower_def o_circ_upper_def o_circ_lower_def
        ascii_lower_def ascii_lower_char_def)
  from exact_match_first [OF cn f, of "\<lambda>q c. 100"]
  have 1: "\<exists>pop_map.
        reconcile ascii_lower (\<lambda>q c. 100) twin_df (pop_names_of twin_df) [land ''Aland'' ''ALA'']
          Map.empty = Inr pop_map \<and> pop_map ''Aland'' = Some (Some 7)"
    and 2: "match_population ascii_lower (\<lambda>q c. 0) twin_df [] ''Aland'' = Inr (Some 7)"
    by (simp_all add: pop_entry_def)
  from exact_match_first [OF cn' f', of "\<lambda>q c. 100"]
  have 3: "match_population accent_lower (\<lambda>q c. 0) accent_df [] o_circ_upper = Inr (Some 1)"
    by (simp add: pop_entry_def)
  from f f' 1 2 3 show ?thesis by (simp add: accent_df_def)
qed

text \<open>
  C5. The side count is a total step function of the radius: below 0.8 it is 4, from 0.8
  and below 2.0 it is 6, from 2.0 and below 4.0 it is 8, from 4.0 on it is 12. It is
  therefore monotonically non-decreasing in the radius and always one of 4, 6, 8, 12; the
  polygon built with it has that many vertices.
\<close>

theorem sides_of_step:
  "(radius < 0.8 \<longrightarrow> sides_of radius = 4)
 \<and> (0.8 \<le> radius \<and> radius < 2.0 \<longrightarrow> sides_of radius = 6)
 \<and> (2.0 \<le> radius \<and> radius < 4.0 \<longrightarrow> sides_of radius = 8)
 \<and> (4.0 \<le> radius \<longrightarrow> sides_of radius = 12)
 \<and> (radius \<le> radius' \<longrightarrow> sides_of radius \<le> sides_of radius')
 \<and> sides_of radius \<in> {4, 6, 8, 12}
 \<and> length (make_regular_polygon cx cy radius (sides_of radius) rotation) = sides_of radius"
  by (simp add: sides_of_def make_regular_polygon_def)

theorem sides_of_step_witness:
  "sides_of 0.79 = 4 \<and> sides_of 0.8 = 6 \<and> sides_of 1.99 = 6 \<and> sides_of 2 = 8
 \<and> sides_of 3.99 = 8 \<and> sides_of 4 = 12 \<and> sides_of 0.79 \<le> sides_of 4"
  using sides_of_step [of "0.79" 4] sides_of_step [of "0.8" 4] sides_of_step [of "1.99" 4]
    sides_of_step [of 2 4] sides_of_step [of "3.99" 4] sides_of_step [of 4 4]
  by simp

text \<open>
  C6. For every non-negative area the radius is \<open>max(0.5, sqrt(area) * 0.6)\<close>; it is
  always at least 0.5, and area 0 gives exactly 0.5.
\<close>

theorem radius_of_floor:
  assumes "0 \<le> a"
  shows "radius_of a = Inr (max 0.5 (sqrt a * 0.6))
    \<and> (\<exists>radius. radius_of a = Inr radius \<and> 0.5 \<le> radius)
    \<and> radius_of 0 = Inr 0.5"
  using assms by (simp add: radius_of_def py_max_def max_def)

theorem radius_of_floor_witness:
  "(0::real) \<le> 4 \<and> radius_of 4 = Inr 1.2 \<and> radius_of 0 = Inr 0.5"
  using radius_of_floor [of 4] by simp

text \<open>
  C7. On a non-empty population frame the first loop never raises: it ends with a
  dictionary whose keys are exactly the canonical names, each bound to the one result the
  loop body computes for it. The lookup in the fuzzy branch cannot fail, since the best
  candidate is a name of the population frame and so selects at least one row.
\<close>

theorem reconcile_never_raises:
  assumes "pop_df \<noteq> []"
  shows "(\<exists>pop_map. reconcile lower score pop_df (pop_names_of pop_df) world Map.empty = Inr pop_map
            \<and> dom pop_map = country ` set world
            \<and> (\<forall>c\<in>country ` set world. \<exists>v. pop_map c = Some v
                  \<and> match_population lower score pop_df (pop_names_of pop_df) c = Inr v))
    \<and> (\<forall>cname. \<exists>best sc r rest.
            extractOne score cname (pop_names_of pop_df) = Some (best, sc)
          \<and> best \<in> pop_country ` set pop_df
          \<and> filter (\<lambda>r. pop_country r = best) pop_df = r # rest
          \<and> iloc0 (map population (filter (\<lambda>r. pop_country r = best) pop_df))
              = Inr (population r))"
proof
  from reconcile_nonempty_table [OF assms, of lower score world] obtain pm
    where r: "reconcile lower score pop_df (pop_names_of pop_df) world Map.empty = Inr pm"
      and d: "dom pm = country ` set world"
      and inn: "\<forall>c\<in>country ` set world. \<forall>v.
          match_population lower score pop_df (pop_names_of pop_df) c = Inr v \<longrightarrow> pm c = Some v"
    by blast
  have "\<forall>c\<in>country ` set world. \<exists>v. pm c = Some v
                  \<and> match_population lower score pop_df (pop_names_of pop_df) c = Inr v"
  proof
    fix c assume c: "c \<in> country ` set world"
    from match_population_total [OF assms, of lower score c] obtain v
      where v: "match_population lower score pop_df (pop_names_of pop_df) c = Inr v" by blast
    with inn c have "pm c = Some v" by blast
    with v show "\<exists>v. pm c = Some v
        \<and> match_population lower score pop_df (pop_names_of pop_df) c = Inr v" by blast
  qed
  with r d show "\<exists>pop_map. reconcile lower score pop_df (pop_names_of pop_df) world Map.empty = Inr pop_map
            \<and> dom pop_map = country ` set world
            \<and> (\<forall>c\<in>country ` set world. \<exists>v. pop_map c = Some v
                  \<and> match_population lower score pop_df (pop_names_of pop_df) c = Inr v)" by blast
next
  show "\<forall>cname. \<exists>best sc r rest.
            extractOne score cname (pop_names_of pop_df) = Some (best, sc)
          \<and> best \<in> pop_country ` set pop_df
          \<and> filter (\<lambda>r. pop_country r = best) pop_df = r # rest
          \<and> iloc0 (map population (filter (\<lambda>r. pop_country r = best) pop_df))
              = Inr (population r)"
  proof
    fix cname
    from assms have "pop_names_of pop_df \<noteq> []"
      by (cases pop_df) (simp_all add: pop_names_of_def)
    from extractOne_Some [OF this, of score cname] obtain best pre post
      where ex: "extractOne score cname (pop_names_of pop_df) = Some (best, score cname best)"
        and sp: "pop_names_of pop_df = pre @ best # post"
      by blast
    from sp have "best \<in> set (pop_names_of pop_df)" by simp
    then have mem: "best \<in> set (map pop_country pop_df)"
      by (simp only: pop_names_of_def set_unique)
    from filter_name_nonempty [OF this] obtain r rest
      where f: "filter (\<lambda>r. pop_country r = best) pop_df = r # rest" by blast
    then have "iloc0 (map population (filter (\<lambda>r. pop_country r = best) pop_df))
        = Inr (population r)" by simp
    with ex mem f show "\<exists>best sc r rest.
            extractOne score cname (pop_names_of pop_df) = Some (best, sc)
          \<and> best \<in> pop_country ` set pop_df
          \<and> filter (\<lambda>r. pop_country r = best) pop_df = r # rest
          \<and> iloc0 (map population (filter (\<lambda>r. pop_country r = best) pop_df))
              = Inr (population r)" by auto
  qed
qed

theorem reconcile_never_raises_witness:
  "xyz_df \<noteq> []
   \<and> (\<exists>pop_map. reconcile ascii_lower (xyz_score 50) xyz_df (pop_names_of xyz_df) scenario_world Map.empty
         = Inr pop_map
       \<and> dom pop_map = {''Aland'', ''Bland'', ''Cland'', ''Dland''})
   \<and> reconcile ascii_lower (xyz_score 50) [] (pop_names_of []) scenario_world Map.empty = Inl TypeError"
proof -
  have ne: "xyz_df \<noteq> []" by (simp add: xyz_df_def)
  have w: "country ` set scenario_world = {''Aland'', ''Bland'', ''Cland'', ''Dland''}"
    by (simp add: scenario_world_def land_def)
  have e: "reconcile ascii_lower (xyz_score 50) [] (pop_names_of []) scenario_world Map.empty = Inl TypeError"
    by (simp add: scenario_world_def land_def pop_names_of_def match_population_def extractOne_def)
  from reconcile_never_raises [OF ne, of ascii_lower "xyz_score 50" scenario_world] ne w e
  show ?thesis by auto
qed

text \<open>
  C9. On a non-empty population frame and non-negative areas the run completes, and a
  region whose geometry is missing or empty is passed over: polygons are synthesized and
  records written for the other regions only, and the result is the one obtained from
  the boundary frame without the passed-over regions.
\<close>

theorem skipped_regions_leave_no_trace:
  assumes ne: "download_population_data df \<noteq> []"
    and ar: "\<forall>row\<in>set world. \<forall>g. geometry row = Some g \<and> \<not> is_empty g \<longrightarrow> 0 \<le> area g"
  shows "(\<exists>st. main lower score world df = Inr st
            \<and> map Inr (plotted st) = map (\<lambda>(row, g). synthesize g) (kept world)
            \<and> map out_country (countries st) = map (\<lambda>(row, g). country row) (kept world))
    \<and> map fst (kept world) = filter (\<lambda>row. \<not> skipped row) world
    \<and> (\<forall>row\<in>set world. skipped row \<longrightarrow> row \<notin> fst ` set (kept world))
    \<and> main lower score world df = main lower score (filter (\<lambda>row. \<not> skipped row) world) df"
proof (intro conjI)
  let ?world' = "filter (\<lambda>row. \<not> skipped row) world"
  let ?pop_df = "download_population_data df"
  from main_total [OF ne ar, of lower score] obtain st where st: "main lower score world df = Inr st"
    by blast
  from main_Inr [OF st] obtain pm
    where r: "reconcile lower score ?pop_df (pop_names_of ?pop_df) world Map.empty = Inr pm"
      and c: "countries st = map (\<lambda>(row, g). make_record pm row) (kept world)"
      and p: "plotted st = map (\<lambda>(row, g). projr (synthesize g)) (kept world)"
      and a: "\<forall>(row, g)\<in>set (kept world). 0 \<le> area g"
    by blast
  have pl: "map Inr (plotted st) = map (\<lambda>(row, g). synthesize g) (kept world)"
    unfolding p by (rule plotted_synthesize [OF a])
  have oc: "map out_country (countries st) = map (\<lambda>(row, g). country row) (kept world)"
    unfolding c by (auto simp: make_record_fields)
  from st pl oc show "\<exists>st. main lower score world df = Inr st
            \<and> map Inr (plotted st) = map (\<lambda>(row, g). synthesize g) (kept world)
            \<and> map out_country (countries st) = map (\<lambda>(row, g). country row) (kept world)"
    by blast
  show ks: "map fst (kept world) = ?world'" by (rule kept_skipped)
  show "\<forall>row\<in>set world. skipped row \<longrightarrow> row \<notin> fst ` set (kept world)"
  proof (intro ballI impI)
    fix row assume "row \<in> set world" and s: "skipped row"
    have "set (map fst (kept world)) = set ?world'" by (simp only: ks)
    with s show "row \<notin> fst ` set (kept world)" by auto
  qed
  have ar': "\<forall>row\<in>set ?world'. \<forall>g. geometry row = Some g \<and> \<not> is_empty g \<longrightarrow> 0 \<le> area g"
    using ar by auto
  from main_total [OF ne ar', of lower score] obtain st' where st': "main lower score ?world' df = Inr st'"
    by blast
  from main_Inr [OF st'] obtain pm'
    where r': "reconcile lower score ?pop_df (pop_names_of ?pop_df) ?world' Map.empty = Inr pm'"
      and c': "countries st' = map (\<lambda>(row, g). make_record pm' row) (kept world)"
      and p': "plotted st' = map (\<lambda>(row, g). projr (synthesize g)) (kept world)"
    by (auto simp: kept_filter)
  have same: "make_record pm row = make_record pm' row" if "(row, g) \<in> set (kept world)" for row g
  proof -
    from that have "row \<in> set (map fst (kept world))" by force
    then have in': "row \<in> set ?world'" by (simp only: ks)
    then have in_w: "row \<in> set world" by simp
    from reconcile_Inr [OF r] in_w obtain v
      where v: "match_population lower score ?pop_df (pop_names_of ?pop_df) (country row) = Inr v"
        and pv: "pm (country row) = Some v" by blast
    from reconcile_Inr [OF r'] in' obtain v'
      where v': "match_population lower score ?pop_df (pop_names_of ?pop_df) (country row) = Inr v'"
        and pv': "pm' (country row) = Some v'" by blast
    from v v' have "v = v'" by simp
    with pv pv' show ?thesis by (simp add: make_record_def pop_map_get_def)
  qed
  then have "countries st = countries st'" unfolding c c' by auto
  moreover have "plotted st = plotted st'" by (simp only: p p')
  ultimately have "st = st'" by simp
  with st st' show "main lower score world df = main lower score ?world' df" by simp
qed

theorem skipped_regions_leave_no_trace_witness:
  "download_population_data scenario_df \<noteq> []
   \<and> filter (\<lambda>row. \<not> skipped row) mixed_world
       = [land ''Aland'' ''ALA'', land ''Aland'' ''AL2'', land ''Bland'' ''BLA'']
   \<and> main ascii_lower (\<lambda>q c. 0) mixed_world scenario_df
       = main ascii_lower (\<lambda>q c. 0) [land ''Aland'' ''ALA'', land ''Aland'' ''AL2'', land ''Bland'' ''BLA'']
           scenario_df
   \<and> (\<exists>st. main ascii_lower (\<lambda>q c. 0) mixed_world scenario_df = Inr st
         \<and> map out_country (countries st) = [''Aland'', ''Aland'', ''Bland''])"
proof -
  have ne: "download_population_data scenario_df \<noteq> []"
    by (simp add: scenario_df_def loader_defs)
  have ar: "\<forall>row\<in>set mixed_world. \<forall>g. geometry row = Some g \<and> \<not> is_empty g \<longrightarrow> 0 \<le> area g"
    by (simp add: mixed_world_def land_def unit_geom_def)
  have f: "filter (\<lambda>row. \<not> skipped row) mixed_world
       = [land ''Aland'' ''ALA'', land ''Aland'' ''AL2'', land ''Bland'' ''BLA'']"
    by (simp add: mixed_world_def land_def unit_geom_def skipped_def)
  have k: "map (\<lambda>(row, g). country row) (kept mixed_world) = [''Aland'', ''Aland'', ''Bland'']"
    by (simp add: mixed_world_def land_def unit_geom_def kept_def)
  note inst = skipped_regions_leave_no_trace [OF ne ar, of ascii_lower "\<lambda>q c. 0"]
  from inst have "\<exists>st. main ascii_lower (\<lambda>q c. 0) mixed_world scenario_df = Inr st
      \<and> map out_country (countries st) = map (\<lambda>(row, g). country row) (kept mixed_world)"
    by blast
  then have a: "\<exists>st. main ascii_lower (\<lambda>q c. 0) mixed_world scenario_df = Inr st
      \<and> map out_country (countries st) = [''Aland'', ''Aland'', ''Bland'']"
    by (simp only: k)
  from inst have "main ascii_lower (\<lambda>q c. 0) mixed_world scenario_df
      = main ascii_lower (\<lambda>q c. 0) (filter (\<lambda>row. \<not> skipped row) mixed_world) scenario_df"
    by blast
  then have b: "main ascii_lower (\<lambda>q c. 0) mixed_world scenario_df
       = main ascii_lower (\<lambda>q c. 0) [land ''Aland'' ''ALA'', land ''Aland'' ''AL2'', land ''Bland'' ''BLA'']
           scenario_df"
    by (simp only: f)
  from ne f a b show ?thesis by blast
qed

text \<open>
  C10. The \<open>countries\<close> list of a completed run has one record per region with
  non-empty geometry, in the order of the boundary frame, carrying the region's name, its
  iso3 code and the population matched for its name, so that records of equal name carry
  equal populations. The run completes on a non-empty population frame and non-negative
  areas.
\<close>

theorem countries_in_boundary_order:
  "(main lower score world df = Inr st \<longrightarrow>
       map out_country (countries st) = map country (filter (\<lambda>row. \<not> skipped row) world)
     \<and> map out_iso3 (countries st) = map iso3 (filter (\<lambda>row. \<not> skipped row) world)
     \<and> map (\<lambda>rec. Inr (population_raw rec)) (countries st)
         = map (\<lambda>row. match_population lower score (download_population_data df)
                  (pop_names_of (download_population_data df)) (country row))
             (filter (\<lambda>row. \<not> skipped row) world)
     \<and> (\<forall>rec\<in>set (countries st). \<forall>rec'\<in>set (countries st).
           out_country rec = out_country rec' \<longrightarrow> population_raw rec = population_raw rec'))
 \<and> (download_population_data df \<noteq> []
      \<and> (\<forall>row\<in>set world. \<forall>g. geometry row = Some g \<and> \<not> is_empty g \<longrightarrow> 0 \<le> area g)
    \<longrightarrow> (\<exists>st. main lower score world df = Inr st))"
proof (intro conjI impI)
  assume "download_population_data df \<noteq> []
      \<and> (\<forall>row\<in>set world. \<forall>g. geometry row = Some g \<and> \<not> is_empty g \<longrightarrow> 0 \<le> area g)"
  then show "\<exists>st. main lower score world df = Inr st" using main_total by blast
next
  let ?world' = "filter (\<lambda>row. \<not> skipped row) world"
  let ?pop_df = "download_population_data df"
  assume st: "main lower score world df = Inr st"
  from main_Inr [OF st] obtain pm
    where r: "reconcile lower score ?pop_df (pop_names_of ?pop_df) world Map.empty = Inr pm"
      and c: "countries st = map (\<lambda>(row, g). make_record pm row) (kept world)"
    by blast
  have c': "countries st = map (make_record pm) ?world'"
  proof -
    have "map (\<lambda>(row, g). make_record pm row) (kept world)
        = map (make_record pm) (map fst (kept world))"
      by (simp add: case_prod_beta comp_def)
    with c show ?thesis by (simp only: kept_skipped)
  qed
  show "map out_country (countries st) = map country ?world'"
    unfolding c' by (simp add: make_record_fields comp_def)
  show "map out_iso3 (countries st) = map iso3 ?world'"
    unfolding c' by (simp add: make_record_fields comp_def)
  have raw: "Inr (population_raw (make_record pm row))
      = match_population lower score ?pop_df (pop_names_of ?pop_df) (country row)"
    if "row \<in> set world" for row
  proof -
    from reconcile_Inr [OF r] that obtain v
      where "match_population lower score ?pop_df (pop_names_of ?pop_df) (country row) = Inr v"
        and "pm (country row) = Some v" by blast
    then show ?thesis by (simp add: make_record_fields pop_map_get_def)
  qed
  show "map (\<lambda>rec. Inr (population_raw rec)) (countries st)
         = map (\<lambda>row. match_population lower score ?pop_df (pop_names_of ?pop_df) (country row)) ?world'"
    unfolding c' using raw by simp
  show "\<forall>rec\<in>set (countries st). \<forall>rec'\<in>set (countries st).
           out_country rec = out_country rec' \<longrightarrow> population_raw rec = population_raw rec'"
    unfolding c' by (auto simp: make_record_fields)
qed

theorem countries_in_boundary_order_witness:
  "main ascii_lower (\<lambda>q c. 0) mixed_world scenario_df = Inr mixed_state
   \<and> map country (filter (\<lambda>row. \<not> skipped row) mixed_world) = [''Aland'', ''Aland'', ''Bland'']
   \<and> map out_country (countries mixed_state) = [''Aland'', ''Aland'', ''Bland'']
   \<and> map iso3 (filter (\<lambda>row. \<not> skipped row) mixed_world) = [''ALA'', ''AL2'', ''BLA'']
   \<and> map out_iso3 (countries mixed_state) = [''ALA'', ''AL2'', ''BLA'']
   \<and> map population_raw (countries mixed_state) = [Some 2500000, Some 2500000, Some (- 1500000)]
   \<and> download_population_data scenario_df \<noteq> []"
proof -
  have ne: "download_population_data scenario_df \<noteq> []"
    by (simp add: scenario_df_def loader_defs)
  have f: "filter (\<lambda>row. \<not> skipped row) mixed_world
       = [land ''Aland'' ''ALA'', land ''Aland'' ''AL2'', land ''Bland'' ''BLA'']"
    by (simp add: mixed_world_def land_def unit_geom_def skipped_def)
  have raw: "map population_raw (countries mixed_state)
      = [Some 2500000, Some 2500000, Some (- 1500000)]"
    by (simp add: mixed_state_def out_entry_def)
  from countries_in_boundary_order [of ascii_lower "\<lambda>q c. 0" mixed_world scenario_df mixed_state]
    mixed_run ne f raw
  show ?thesis by (simp add: land_def)
qed

end
